theory Spec2Isabelle
  imports Main "HOL-Library.Word"
begin

unbundle bit_operations_syntax

section \<open>Python values, exceptions and byte arrays\<close>

text \<open>
  The interpreter of \<^verbatim>\<open>EMUSNESV0.py\<close> raises no exception of its own. The exceptions
  that can leave its code come from indexing and storing into the \<^verbatim>\<open>bytearray\<close> and
  the framebuffer list. An exception leaves the object as mutated so far, so an outcome
  keeps the state in both cases.
\<close>

datatype error = IndexError | ValueError

datatype 's outcome = Done 's | Raised error 's

definition state_of :: "'s outcome \<Rightarrow> 's" where
  "state_of r = (case r of Done s \<Rightarrow> s | Raised e s \<Rightarrow> s)"

definition raised :: "'s outcome \<Rightarrow> bool" where
  "raised r = (case r of Done s \<Rightarrow> False | Raised e s \<Rightarrow> True)"

type_synonym byte = "8 word"

text \<open>
  An index into a sequence of length \<open>n\<close>: from \<open>0\<close> to \<open>n - 1\<close> it is the position,
  from \<open>-n\<close> to \<open>-1\<close> it counts from the end, and any other index is out of range.
\<close>

definition norm_index :: "nat \<Rightarrow> int \<Rightarrow> nat option" where
  "norm_index n i =
     (if 0 \<le> i \<and> i < int n then Some (nat i)
      else if - int n \<le> i \<and> i < 0 then Some (nat (int n + i))
      else None)"

text \<open>\<^verbatim>\<open>m[i]\<close> on a \<^verbatim>\<open>bytearray\<close> or a list; out of range it raises \<^verbatim>\<open>IndexError\<close>.\<close>

definition getitem :: "'a list \<Rightarrow> int \<Rightarrow> error + 'a" where
  "getitem m i =
     (case norm_index (length m) i of
        None \<Rightarrow> Inl IndexError
      | Some j \<Rightarrow> Inr (m ! j))"

text \<open>
  \<^verbatim>\<open>m[i] = v\<close> on a \<^verbatim>\<open>bytearray\<close>: the value must be in \<^verbatim>\<open>range(0, 256)\<close>
  (\<^verbatim>\<open>ValueError\<close> otherwise), then the index in range. The length is kept.
\<close>

definition setitem :: "byte list \<Rightarrow> int \<Rightarrow> int \<Rightarrow> error + byte list" where
  "setitem m i v =
     (if 0 \<le> v \<and> v < 256 then
        (case norm_index (length m) i of
           None \<Rightarrow> Inl IndexError
         | Some j \<Rightarrow> Inr (m[j := word_of_int v]))
      else Inl ValueError)"

text \<open>
  \<^verbatim>\<open>m[i:j] = vs\<close> with constant non-negative bounds: the elements from \<^verbatim>\<open>i\<close> up to
  \<^verbatim>\<open>j\<close> are replaced by \<^verbatim>\<open>vs\<close>, whatever the length of \<^verbatim>\<open>vs\<close>; the sequence grows
  or shrinks by the difference.
\<close>

definition slice_assign :: "'a list \<Rightarrow> nat \<Rightarrow> nat \<Rightarrow> 'a list \<Rightarrow> 'a list" where
  "slice_assign m i j vs = take i m @ vs @ drop (max i j) m"

section \<open>SimpleSNESCPU\<close>

record SimpleSNESCPU =
  memory :: "byte list"
  pc :: int
  reg_a :: int
  reg_x :: int
  reg_y :: int
  sp :: int
  status :: int

text \<open>\<^verbatim>\<open>SimpleSNESCPU.__init__\<close>: a zeroed \<^verbatim>\<open>bytearray(0x100000)\<close>, the registers, and
  the test program assigned to the slice \<^verbatim>\<open>[0x8000:0x8003]\<close>.\<close>

definition test_program :: "byte list" where
  "test_program = [0xA9, 0x05, 0x8D, 0x00, 0x02, 0x4C, 0x00, 0x80]"

definition SimpleSNESCPU_init :: SimpleSNESCPU where
  "SimpleSNESCPU_init =
     \<lparr> memory = slice_assign (replicate 0x100000 0) 0x8000 0x8003 test_program,
       pc = 0x8000, reg_a = 0, reg_x = 0, reg_y = 0, sp = 0x0100, status = 0 \<rparr>"

text \<open>
  \<^verbatim>\<open>SimpleSNESCPU.step\<close>. The opcode is read at \<^verbatim>\<open>pc\<close>, then \<^verbatim>\<open>pc\<close> is advanced by one.
  \<^verbatim>\<open>0xA9\<close> loads the next byte into \<^verbatim>\<open>a\<close>. \<^verbatim>\<open>0x8D\<close> and \<^verbatim>\<open>0x4C\<close> read two operand
  bytes, the first one shifted left by eight; \<^verbatim>\<open>0x8D\<close> stores \<^verbatim>\<open>a\<close> there, \<^verbatim>\<open>0x4C\<close>
  assigns the address to \<^verbatim>\<open>pc\<close>; after either, \<^verbatim>\<open>pc += 2\<close>. Every other opcode falls
  through both tests.
\<close>

definition step :: "SimpleSNESCPU \<Rightarrow> SimpleSNESCPU outcome" where
  "step c =
     (case getitem (memory c) (pc c) of
        Inl e \<Rightarrow> Raised e c
      | Inr opcode \<Rightarrow>
          let c1 = c\<lparr>pc := pc c + 1\<rparr> in
          if opcode = 0xA9 then
            (case getitem (memory c1) (pc c1) of
               Inl e \<Rightarrow> Raised e c1
             | Inr v \<Rightarrow> let c2 = c1\<lparr>reg_a := uint v\<rparr> in Done (c2\<lparr>pc := pc c2 + 1\<rparr>))
          else if opcode \<in> set [0x8D, 0x4C] then
            (case getitem (memory c1) (pc c1) of
               Inl e \<Rightarrow> Raised e c1
             | Inr hi \<Rightarrow>
                 (case getitem (memory c1) (pc c1 + 1) of
                    Inl e \<Rightarrow> Raised e c1
                  | Inr lo \<Rightarrow>
                      let address = push_bit 8 (uint hi) OR uint lo in
                      if opcode = 0x8D then
                        (case setitem (memory c1) address (reg_a c1) of
                           Inl e \<Rightarrow> Raised e c1
                         | Inr m \<Rightarrow> let c2 = c1\<lparr>memory := m\<rparr> in Done (c2\<lparr>pc := pc c2 + 2\<rparr>))
                      else
                        let c2 = c1\<lparr>pc := address\<rparr> in Done (c2\<lparr>pc := pc c2 + 2\<rparr>)))
          else Done c1)"

text \<open>\<^verbatim>\<open>n\<close> successive calls of \<^verbatim>\<open>step()\<close>; an exception ends the sequence.\<close>

primrec run_steps :: "nat \<Rightarrow> SimpleSNESCPU \<Rightarrow> SimpleSNESCPU outcome" where
  "run_steps 0 c = Done c"
| "run_steps (Suc n) c =
     (case step c of Done c' \<Rightarrow> run_steps n c' | Raised e c' \<Rightarrow> Raised e c')"

text \<open>
  \<^verbatim>\<open>for i in range(n): body\<close> over a state: the body runs for \<^verbatim>\<open>i = 0, ..., n-1\<close>
  in this order, and an exception raised by the body leaves the loop.
\<close>

definition for_range :: "nat \<Rightarrow> (nat \<Rightarrow> 's \<Rightarrow> 's outcome) \<Rightarrow> 's \<Rightarrow> 's outcome" where
  "for_range n body s =
     fold (\<lambda>i r. case r of Done s' \<Rightarrow> body i s' | Raised e s' \<Rightarrow> Raised e s') [0..<n] (Done s)"

section \<open>SNESPPU\<close>

text \<open>
  The image of the imaging library, as far as \<^verbatim>\<open>render_frame\<close> uses it: a size, and one
  RGB triple per position, kept row by row. \<^verbatim>\<open>Image.new("RGB", (w, h))\<close> is black;
  \<^verbatim>\<open>pixels[x, y] = p\<close> stores \<^verbatim>\<open>p\<close> at column \<^verbatim>\<open>x\<close> of row \<^verbatim>\<open>y\<close> and raises
  \<^verbatim>\<open>IndexError\<close> outside the image. Channel values from 0 to 255 are stored as they
  are; what the library makes of other values is not part of this program.
\<close>

type_synonym pixel = "int \<times> int \<times> int"

record image =
  img_width :: nat
  img_height :: nat
  img_data :: "pixel list"

definition Image_new :: "nat \<Rightarrow> nat \<Rightarrow> image" where
  "Image_new w h = \<lparr> img_width = w, img_height = h, img_data = replicate (w * h) (0, 0, 0) \<rparr>"

definition putpixel :: "image \<Rightarrow> nat \<Rightarrow> nat \<Rightarrow> pixel \<Rightarrow> error + image" where
  "putpixel img x y p =
     (if x < img_width img \<and> y < img_height img
      then Inr (img\<lparr>img_data := (img_data img)[y * img_width img + x := p]\<rparr>)
      else Inl IndexError)"

definition getpixel :: "image \<Rightarrow> nat \<Rightarrow> nat \<Rightarrow> error + pixel" where
  "getpixel img x y =
     (if x < img_width img \<and> y < img_height img
      then Inr (img_data img ! (y * img_width img + x))
      else Inl IndexError)"

text \<open>The canvas holds the image items created on it, each with its position.\<close>

record SNESPPU =
  canvas :: "(int \<times> int \<times> image) list"
  ppu_image :: "image option"
  width :: nat
  height :: nat
  framebuffer :: "int list"

definition SNESPPU_init :: "(int \<times> int \<times> image) list \<Rightarrow> SNESPPU" where
  "SNESPPU_init cv =
     \<lparr> canvas = cv, ppu_image = None, width = 256, height = 224,
       framebuffer = replicate (256 * 224) 0 \<rparr>"

text \<open>
  \<^verbatim>\<open>SNESPPU.render_frame\<close>: a new image of \<^verbatim>\<open>width\<close> by \<^verbatim>\<open>height\<close>; for every row
  \<^verbatim>\<open>y\<close> and every column \<^verbatim>\<open>x\<close> the value \<^verbatim>\<open>framebuffer[y * width + x]\<close> is written
  to the three channels of the pixel at \<^verbatim>\<open>(x, y)\<close>; the image is then kept in
  \<^verbatim>\<open>ppu_image\<close> and put on the canvas at \<^verbatim>\<open>(0, 0)\<close>.
\<close>

definition render_pixel :: "SNESPPU \<Rightarrow> nat \<Rightarrow> nat \<Rightarrow> image \<Rightarrow> image outcome" where
  "render_pixel p y x img =
     (case getitem (framebuffer p) (int (y * width p + x)) of
        Inl e \<Rightarrow> Raised e img
      | Inr color \<Rightarrow>
          (case putpixel img x y (color, color, color) of
             Inl e \<Rightarrow> Raised e img
           | Inr img' \<Rightarrow> Done img'))"

definition render_frame :: "SNESPPU \<Rightarrow> SNESPPU outcome" where
  "render_frame p =
     (case for_range (height p) (\<lambda>y. for_range (width p) (render_pixel p y))
             (Image_new (width p) (height p)) of
        Raised e img \<Rightarrow> Raised e p
      | Done img \<Rightarrow>
          let p1 = p\<lparr>ppu_image := Some img\<rparr>
          in Done (p1\<lparr>canvas := canvas p1 @ [(0, 0, img)]\<rparr>))"

section \<open>CitraLikeEmulator\<close>

text \<open>
  Of the window, the emulator state keeps the text of the status label and the delays of
  the callbacks registered with \<^verbatim>\<open>root.after\<close>.
\<close>

record CitraLikeEmulator =
  cpu :: SimpleSNESCPU
  ppu :: SNESPPU
  is_running :: bool
  status_label :: string
  after_calls :: "nat list"

definition CitraLikeEmulator_init :: CitraLikeEmulator where
  "CitraLikeEmulator_init =
     \<lparr> cpu = SimpleSNESCPU_init, ppu = SNESPPU_init [], is_running = False,
       status_label = ''Ready'', after_calls = [] \<rparr>"

text \<open>\<^verbatim>\<open>os.path.basename\<close>: what follows the last slash.\<close>

definition basename :: "string \<Rightarrow> string" where
  "basename path = rev (takeWhile (\<lambda>ch. ch \<noteq> CHR ''/'') (rev path))"

text \<open>
  \<^verbatim>\<open>CitraLikeEmulator.load_rom\<close>, given the path chosen in the dialog (empty when the
  dialog is cancelled) and the bytes of the file at that path: at most \<^verbatim>\<open>0x20000\<close>
  bytes are read and assigned to the slice \<^verbatim>\<open>[0x8000:0xC000]\<close> of the memory.
\<close>

definition load_rom :: "string \<Rightarrow> byte list \<Rightarrow> CitraLikeEmulator \<Rightarrow> CitraLikeEmulator" where
  "load_rom rom_path file e =
     (if rom_path \<noteq> [] then
        let c = cpu e;
            e1 = e\<lparr>cpu := c\<lparr>memory := slice_assign (memory c) 0x8000 0xC000 (take 0x20000 file)\<rparr>\<rparr>
        in e1\<lparr>status_label := ''Loaded: '' @ basename rom_path\<rparr>
      else e)"

text \<open>\<^verbatim>\<open>self.cpu.step()\<close> inside the emulator.\<close>

definition cpu_step :: "CitraLikeEmulator \<Rightarrow> CitraLikeEmulator outcome" where
  "cpu_step e =
     (case step (cpu e) of
        Done c \<Rightarrow> Done (e\<lparr>cpu := c\<rparr>)
      | Raised err c \<Rightarrow> Raised err (e\<lparr>cpu := c\<rparr>))"

text \<open>
  \<^verbatim>\<open>CitraLikeEmulator.emulate_single_frame\<close>: the loop over \<^verbatim>\<open>range(100)\<close> calling
  \<^verbatim>\<open>step\<close>, then the framebuffer filled with \<^verbatim>\<open>i % 256\<close>, then \<^verbatim>\<open>render_frame\<close>.
\<close>

definition emulate_single_frame :: "CitraLikeEmulator \<Rightarrow> CitraLikeEmulator outcome" where
  "emulate_single_frame e =
     (case for_range 100 (\<lambda>_. cpu_step) e of
        Raised err e1 \<Rightarrow> Raised err e1
      | Done e1 \<Rightarrow>
          let p = ppu e1;
              p1 = p\<lparr>framebuffer := map (\<lambda>i. int i mod 256) [0..<width p * height p]\<rparr>
          in (case render_frame p1 of
                Raised err p2 \<Rightarrow> Raised err (e1\<lparr>ppu := p2\<rparr>)
              | Done p2 \<Rightarrow> Done (e1\<lparr>ppu := p2\<rparr>)))"

text \<open>
  \<^verbatim>\<open>CitraLikeEmulator.emulate\<close>: nothing when not running; otherwise one frame, and the
  next call registered after 16 milliseconds.
\<close>

definition emulate :: "CitraLikeEmulator \<Rightarrow> CitraLikeEmulator outcome" where
  "emulate e =
     (if \<not> is_running e then Done e
      else (case emulate_single_frame e of
              Raised err e1 \<Rightarrow> Raised err e1
            | Done e1 \<Rightarrow> Done (e1\<lparr>after_calls := after_calls e1 @ [16]\<rparr>)))"

section \<open>States used as examples\<close>

text \<open>
  A program is installed the way the constructor installs its own: by assigning to a slice
  of the memory, here a slice as long as the program. All three start from the constructed
  processor, whose \<^verbatim>\<open>pc\<close> is \<^verbatim>\<open>0x8000\<close>.
\<close>

definition install :: "nat \<Rightarrow> byte list \<Rightarrow> SimpleSNESCPU \<Rightarrow> SimpleSNESCPU" where
  "install addr prog c = c\<lparr>memory := slice_assign (memory c) addr (addr + length prog) prog\<rparr>"

definition jmp_self_cpu :: SimpleSNESCPU where
  "jmp_self_cpu = install 0x8000 [0x4C, 0x80, 0x00] SimpleSNESCPU_init"

definition sta_program_cpu :: SimpleSNESCPU where
  "sta_program_cpu = install 0x8000 [0xA9, 0x05, 0x8D, 0x00, 0x02] SimpleSNESCPU_init"

definition illegal_cpu :: SimpleSNESCPU where
  "illegal_cpu = install 0x8000 [0xFF] SimpleSNESCPU_init"

text \<open>The emulator as \<^verbatim>\<open>start_emulation\<close> leaves it when it calls \<^verbatim>\<open>emulate\<close>.\<close>

definition frame_start :: CitraLikeEmulator where
  "frame_start = CitraLikeEmulator_init\<lparr>is_running := True, status_label := ''Running''\<rparr>"

text \<open>
  The display as \<^verbatim>\<open>emulate_single_frame\<close> hands it to \<^verbatim>\<open>render_frame\<close>: the constructed
  display with its framebuffer refilled with \<^verbatim>\<open>i % 256\<close>.
\<close>

definition pattern_ppu :: SNESPPU where
  "pattern_ppu = (SNESPPU_init [])\<lparr>framebuffer := map (\<lambda>i. int i mod 256) [0..<256 * 224]\<rparr>"

section \<open>The image a rendering builds\<close>

definition gray :: "int \<Rightarrow> pixel" where
  "gray v = (v, v, v)"

text \<open>
  The loop invariant of \<^verbatim>\<open>render_frame\<close>: after \<open>k\<close> pixels, the image has the size of
  the display, its first \<open>k\<close> pixels are the gray values of the first \<open>k\<close> framebuffer
  entries, and the rest is still black.
\<close>

definition rendered :: "SNESPPU \<Rightarrow> nat \<Rightarrow> image \<Rightarrow> bool" where
  "rendered p k img \<longleftrightarrow>
     img_width img = width p \<and> img_height img = height p \<and>
     img_data img =
       map gray (take k (framebuffer p)) @ replicate (width p * height p - k) (0, 0, 0)"

section \<open>Indexing and the loop\<close>

lemma getitem_nat: "k < length m \<Longrightarrow> getitem m (int k) = Inr (m ! k)"
  by (simp add: getitem_def norm_index_def)

lemma setitem_length: "setitem m i v = Inr m' \<Longrightarrow> length m' = length m"
  by (auto simp: setitem_def split: if_splits option.splits)

lemma for_range_0: "for_range 0 body s = Done s"
  by (simp add: for_range_def)

lemma for_range_Suc:
  "for_range (Suc n) body s =
     (case for_range n body s of Done s' \<Rightarrow> body n s' | Raised e s' \<Rightarrow> Raised e s')"
  by (simp add: for_range_def)

text \<open>A loop whose body keeps an invariant and never raises ends with the invariant.\<close>

lemma for_range_invariant:
  assumes init: "I 0 s"
    and body: "\<And>i t. i < n \<Longrightarrow> I i t \<Longrightarrow> \<exists>t'. body i t = Done t' \<and> I (Suc i) t'"
  shows "\<exists>t. for_range n body s = Done t \<and> I n t"
proof -
  have "k \<le> n \<Longrightarrow> \<exists>t. for_range k body s = Done t \<and> I k t" for k
  proof (induction k)
    case 0
    show ?case using init by (simp add: for_range_0)
  next
    case (Suc k)
    then obtain t where t: "for_range k body s = Done t" "I k t" by auto
    from Suc.prems have "k < n" by simp
    from body [OF this t(2)] obtain t' where "body k t = Done t'" "I (Suc k) t'" by blast
    with t show ?case by (simp add: for_range_Suc)
  qed
  then show ?thesis by blast
qed

section \<open>One instruction\<close>

lemmas cpu_eval = step_def getitem_def setitem_def norm_index_def slice_assign_def install_def
  test_program_def SimpleSNESCPU_init_def nth_append nth_list_update Let_def

lemma run_steps_numeral:
  "run_steps (numeral k) c =
     (case step c of
        Done c' \<Rightarrow> run_steps (pred_numeral k) c'
      | Raised e c' \<Rightarrow> Raised e c')"
  by (simp add: numeral_eq_Suc)

lemma run_steps_snoc:
  "run_steps (Suc n) c =
     (case run_steps n c of Done c' \<Rightarrow> step c' | Raised e c' \<Rightarrow> Raised e c')"
proof (induction n arbitrary: c)
  case 0
  show ?case by (simp split: outcome.splits)
next
  case (Suc n)
  show ?case
  proof (cases "step c")
    case (Done c')
    then show ?thesis using Suc.IH [of c'] by simp
  next
    case (Raised e c')
    then show ?thesis by simp
  qed
qed

text \<open>
  The store: with both operand bytes readable and \<^verbatim>\<open>a\<close> a byte value, \<^verbatim>\<open>a\<close> is
  written at the address whose high byte is the first operand, and \<^verbatim>\<open>pc\<close> ends three
  bytes further.
\<close>

lemma step_sta:
  assumes "getitem (memory c) (pc c) = Inr 0x8D"
    and "getitem (memory c) (pc c + 1) = Inr hi"
    and "getitem (memory c) (pc c + 2) = Inr lo"
    and "setitem (memory c) (push_bit 8 (uint hi) OR uint lo) (reg_a c) = Inr m"
  shows "step c = Done (c\<lparr>memory := m, pc := pc c + 3\<rparr>)"
proof -
  have "getitem (memory c) (pc c + 1 + 1) = Inr lo"
    using assms(3) by (simp add: add.assoc)
  then show ?thesis using assms(1,2,4) by (simp add: step_def Let_def)
qed

text \<open>
  The jump: \<^verbatim>\<open>pc\<close> is assigned the address, and the \<^verbatim>\<open>pc += 2\<close> that follows the
  store and the jump alike then moves it two bytes past the address.
\<close>

lemma step_jmp:
  assumes "getitem (memory c) (pc c) = Inr 0x4C"
    and "getitem (memory c) (pc c + 1) = Inr hi"
    and "getitem (memory c) (pc c + 2) = Inr lo"
  shows "step c = Done (c\<lparr>pc := (push_bit 8 (uint hi) OR uint lo) + 2\<rparr>)"
proof -
  have "getitem (memory c) (pc c + 1 + 1) = Inr lo"
    using assms(3) by (simp add: add.assoc)
  then show ?thesis using assms(1,2) by (simp add: step_def Let_def)
qed

text \<open>No instruction changes the length of the memory, whether it returns or raises.\<close>

lemma step_memory_length: "length (memory (state_of (step c))) = length (memory c)"
  by (auto simp add: step_def state_of_def Let_def setitem_length split: sum.splits)

text \<open>
  C1 (the code differs). With \<^verbatim>\<open>[0x4C, 0x80, 0x00]\<close> installed at \<^verbatim>\<open>0x8000\<close> and
  \<^verbatim>\<open>pc = 0x8000\<close>, one \<^verbatim>\<open>step()\<close> leaves \<^verbatim>\<open>pc\<close> at \<^verbatim>\<open>0x8002\<close>, not at the
  target \<^verbatim>\<open>0x8000\<close>, and a second one moves it to \<^verbatim>\<open>0x8003\<close>: the register state is
  not constant.
\<close>

theorem jmp_self_pc_past_target:
  "getitem (memory jmp_self_cpu) (pc jmp_self_cpu) = Inr 0x4C \<and>
   pc jmp_self_cpu = 0x8000 \<and>
   step jmp_self_cpu = Done (jmp_self_cpu\<lparr>pc := 0x8002\<rparr>) \<and>
   run_steps 2 jmp_self_cpu = Done (jmp_self_cpu\<lparr>pc := 0x8003\<rparr>)"
  by (simp add: jmp_self_cpu_def run_steps_numeral cpu_eval)

text \<open>
  C2 (the code differs). With \<^verbatim>\<open>[0xA9, 0x05, 0x8D, 0x00, 0x02]\<close> installed at
  \<^verbatim>\<open>0x8000\<close> and \<^verbatim>\<open>pc = 0x8000\<close>, two calls of \<^verbatim>\<open>step()\<close> return normally; the
  operand bytes \<^verbatim>\<open>0x00, 0x02\<close> are read high byte first, so the 5 is stored at address
  \<^verbatim>\<open>0x0002\<close> and address \<^verbatim>\<open>0x0200\<close> still reads 0.
\<close>

theorem sta_program_stores_at_0x0002:
  "\<not> raised (run_steps 2 sta_program_cpu) \<and>
   getitem (memory (state_of (run_steps 2 sta_program_cpu))) 0x0200 = Inr 0 \<and>
   getitem (memory (state_of (run_steps 2 sta_program_cpu))) 0x0002 = Inr 5"
  by (simp add: sta_program_cpu_def run_steps_numeral cpu_eval raised_def state_of_def)

text \<open>
  C3, as the claim states it, fails: with \<^verbatim>\<open>0xFF\<close> at \<^verbatim>\<open>pc\<close>, \<^verbatim>\<open>step()\<close> raises
  nothing and returns with \<^verbatim>\<open>pc\<close> advanced by one.
\<close>

theorem illegal_opcode_not_raised:
  "getitem (memory illegal_cpu) (pc illegal_cpu) = Inr 0xFF \<and>
   \<not> raised (step illegal_cpu) \<and>
   step illegal_cpu = Done (illegal_cpu\<lparr>pc := 0x8001\<rparr>)"
  by (simp add: illegal_cpu_def cpu_eval raised_def)

text \<open>
  C3, amended. For every state in which the byte at \<^verbatim>\<open>pc\<close> is none of \<^verbatim>\<open>0xA9\<close>,
  \<^verbatim>\<open>0x8D\<close>, \<^verbatim>\<open>0x4C\<close>, \<^verbatim>\<open>step()\<close> raises no error (the interpreter has no
  illegal-opcode error); it returns, and neither the memory nor any of the registers
  \<^verbatim>\<open>a\<close>, \<^verbatim>\<open>x\<close>, \<^verbatim>\<open>y\<close>, \<^verbatim>\<open>sp\<close>, \<^verbatim>\<open>status\<close> is mutated; \<^verbatim>\<open>pc\<close> moves past the
  opcode byte, to \<^verbatim>\<open>pc + 1\<close>.
\<close>

theorem unknown_opcode_returns_unmutated:
  assumes "getitem (memory c) (pc c) = Inr opcode" and "opcode \<notin> {0xA9, 0x8D, 0x4C}"
  shows "\<not> raised (step c) \<and>
         memory (state_of (step c)) = memory c \<and>
         reg_a (state_of (step c)) = reg_a c \<and>
         reg_x (state_of (step c)) = reg_x c \<and>
         reg_y (state_of (step c)) = reg_y c \<and>
         sp (state_of (step c)) = sp c \<and>
         status (state_of (step c)) = status c \<and>
         pc (state_of (step c)) = pc c + 1"
  using assms by (simp add: step_def raised_def state_of_def)

theorem unknown_opcode_returns_unmutated_witness:
  "getitem (memory illegal_cpu) (pc illegal_cpu) = Inr 0xFF \<and>
   (0xFF :: byte) \<notin> {0xA9, 0x8D, 0x4C} \<and>
   \<not> raised (step illegal_cpu) \<and>
   memory (state_of (step illegal_cpu)) = memory illegal_cpu \<and>
   reg_a (state_of (step illegal_cpu)) = 0 \<and>
   reg_x (state_of (step illegal_cpu)) = 0 \<and>
   reg_y (state_of (step illegal_cpu)) = 0 \<and>
   sp (state_of (step illegal_cpu)) = 0x0100 \<and>
   status (state_of (step illegal_cpu)) = 0 \<and>
   pc illegal_cpu = 0x8000 \<and>
   pc (state_of (step illegal_cpu)) = 0x8001"
proof -
  have h1: "getitem (memory illegal_cpu) (pc illegal_cpu) = Inr 0xFF"
    by (simp add: illegal_cpu_def cpu_eval)
  have h2: "(0xFF :: byte) \<notin> {0xA9, 0x8D, 0x4C}" by simp
  have regs: "reg_a illegal_cpu = 0" "reg_x illegal_cpu = 0" "reg_y illegal_cpu = 0"
    "sp illegal_cpu = 0x0100" "status illegal_cpu = 0" "pc illegal_cpu = 0x8000"
    by (simp_all add: illegal_cpu_def install_def SimpleSNESCPU_init_def)
  with unknown_opcode_returns_unmutated [OF h1 h2] h1 h2 show ?thesis by simp
qed

text \<open>
  C5. For every state in which the byte at \<^verbatim>\<open>pc\<close> is \<^verbatim>\<open>0xA9\<close> and the byte after it
  is \<open>v\<close>, one \<^verbatim>\<open>step()\<close> returns with register \<^verbatim>\<open>a\<close> equal to \<open>v\<close> and \<^verbatim>\<open>pc\<close>
  advanced by exactly 2; nothing else changes.
\<close>

theorem step_lda:
  assumes "getitem (memory c) (pc c) = Inr 0xA9" and "getitem (memory c) (pc c + 1) = Inr v"
  shows "step c = Done (c\<lparr>reg_a := uint v, pc := pc c + 2\<rparr>)"
  using assms by (simp add: step_def)

theorem step_lda_witness:
  "getitem (memory SimpleSNESCPU_init) (pc SimpleSNESCPU_init) = Inr 0xA9 \<and>
   getitem (memory SimpleSNESCPU_init) (pc SimpleSNESCPU_init + 1) = Inr 5 \<and>
   step SimpleSNESCPU_init = Done (SimpleSNESCPU_init\<lparr>reg_a := 5, pc := 0x8002\<rparr>)"
proof -
  have h1: "getitem (memory SimpleSNESCPU_init) (pc SimpleSNESCPU_init) = Inr 0xA9"
    by (simp add: cpu_eval)
  have h2: "getitem (memory SimpleSNESCPU_init) (pc SimpleSNESCPU_init + 1) = Inr 5"
    by (simp add: cpu_eval)
  have "pc SimpleSNESCPU_init = 0x8000" by (simp add: SimpleSNESCPU_init_def)
  with step_lda [OF h1 h2] h1 h2 show ?thesis by simp
qed

text \<open>
  C6. \<^verbatim>\<open>step()\<close> is deterministic: two states with the same memory contents and the same
  values of \<^verbatim>\<open>pc\<close>, \<^verbatim>\<open>a\<close>, \<^verbatim>\<open>x\<close>, \<^verbatim>\<open>y\<close>, \<^verbatim>\<open>sp\<close> and \<^verbatim>\<open>status\<close> give, after
  step sequences of the same length, the same outcome: the same final memory and
  registers, and the same exception if one is raised.
\<close>

theorem step_deterministic:
  assumes "memory c1 = memory c2" and "pc c1 = pc c2" and "reg_a c1 = reg_a c2"
    and "reg_x c1 = reg_x c2" and "reg_y c1 = reg_y c2" and "sp c1 = sp c2"
    and "status c1 = status c2"
  shows "run_steps n c1 = run_steps n c2"
proof -
  have "c1 = c2" using assms by (simp add: SimpleSNESCPU.equality)
  then show ?thesis by simp
qed

theorem step_deterministic_witness:
  "memory sta_program_cpu = memory SimpleSNESCPU_init \<and>
   pc sta_program_cpu = pc SimpleSNESCPU_init \<and>
   reg_a sta_program_cpu = reg_a SimpleSNESCPU_init \<and>
   reg_x sta_program_cpu = reg_x SimpleSNESCPU_init \<and>
   reg_y sta_program_cpu = reg_y SimpleSNESCPU_init \<and>
   sp sta_program_cpu = sp SimpleSNESCPU_init \<and>
   status sta_program_cpu = status SimpleSNESCPU_init \<and>
   run_steps 3 sta_program_cpu = run_steps 3 SimpleSNESCPU_init"
proof -
  have m: "memory sta_program_cpu = memory SimpleSNESCPU_init"
    by (simp add: sta_program_cpu_def install_def SimpleSNESCPU_init_def slice_assign_def
        test_program_def)
  have r: "pc sta_program_cpu = pc SimpleSNESCPU_init"
    "reg_a sta_program_cpu = reg_a SimpleSNESCPU_init"
    "reg_x sta_program_cpu = reg_x SimpleSNESCPU_init"
    "reg_y sta_program_cpu = reg_y SimpleSNESCPU_init"
    "sp sta_program_cpu = sp SimpleSNESCPU_init"
    "status sta_program_cpu = status SimpleSNESCPU_init"
    by (simp_all add: sta_program_cpu_def install_def)
  from step_deterministic [OF m r, of 3] m r show ?thesis by simp
qed

text \<open>
  C9. For every state, whatever the opcode and whether the call returns or raises, one
  \<^verbatim>\<open>step()\<close> leaves the registers \<^verbatim>\<open>x\<close>, \<^verbatim>\<open>y\<close>, \<^verbatim>\<open>sp\<close> and \<^verbatim>\<open>status\<close> as they
  were: only \<^verbatim>\<open>pc\<close>, \<^verbatim>\<open>a\<close> and the memory can differ afterwards.
\<close>

theorem step_keeps_x_y_sp_status:
  "reg_x (state_of (step c)) = reg_x c \<and> reg_y (state_of (step c)) = reg_y c \<and>
   sp (state_of (step c)) = sp c \<and> status (state_of (step c)) = status c"
  by (simp add: step_def state_of_def Let_def split: sum.splits)

text \<open>
  C10. For every state in which the byte at \<^verbatim>\<open>pc\<close> is not \<^verbatim>\<open>0xA9\<close>, \<^verbatim>\<open>0x8D\<close> or
  \<^verbatim>\<open>0x4C\<close>, \<^verbatim>\<open>step()\<close> returns without an error, with \<^verbatim>\<open>pc\<close> advanced by exactly 1
  and every other register and the whole memory unchanged.
\<close>

theorem step_other_opcode:
  assumes "getitem (memory c) (pc c) = Inr opcode"
    and "opcode \<noteq> 0xA9" and "opcode \<noteq> 0x8D" and "opcode \<noteq> 0x4C"
  shows "step c = Done (c\<lparr>pc := pc c + 1\<rparr>)"
  using assms by (simp add: step_def)

theorem step_other_opcode_witness:
  "getitem (memory (SimpleSNESCPU_init\<lparr>pc := 0x8003\<rparr>)) (pc (SimpleSNESCPU_init\<lparr>pc := 0x8003\<rparr>))
     = Inr 0x00 \<and>
   (0x00 :: byte) \<noteq> 0xA9 \<and> (0x00 :: byte) \<noteq> 0x8D \<and> (0x00 :: byte) \<noteq> 0x4C \<and>
   step (SimpleSNESCPU_init\<lparr>pc := 0x8003\<rparr>) = Done (SimpleSNESCPU_init\<lparr>pc := 0x8004\<rparr>)"
proof -
  let ?c = "SimpleSNESCPU_init\<lparr>pc := 0x8003\<rparr>"
  have h1: "getitem (memory ?c) (pc ?c) = Inr 0x00" by (simp add: cpu_eval)
  have h2: "(0x00 :: byte) \<noteq> 0xA9" and h3: "(0x00 :: byte) \<noteq> 0x8D"
    and h4: "(0x00 :: byte) \<noteq> 0x4C" by simp_all
  from step_other_opcode [OF h1 h2 h3 h4] h1 show ?thesis by simp
qed

section \<open>The length of the memory\<close>

text \<open>
  C4 (the code differs). The memory is allocated with \<^verbatim>\<open>0x100000\<close> bytes, but the
  constructor assigns the eight bytes of its test program to a slice of three, so the
  constructed memory has \<^verbatim>\<open>0x100005\<close> bytes; and loading a ROM of \<^verbatim>\<open>0x20000\<close> bytes
  assigns them to the slice \<^verbatim>\<open>[0x8000:0xC000]\<close>, after which it has \<^verbatim>\<open>0x11C005\<close>.
\<close>

theorem memory_length_not_fixed:
  "length (memory SimpleSNESCPU_init) = 0x100005 \<and>
   length (memory (cpu (load_rom ''game.smc'' (replicate 0x20000 0) CitraLikeEmulator_init)))
     = 0x11C005"
  by (simp add: load_rom_def CitraLikeEmulator_init_def SimpleSNESCPU_init_def
      slice_assign_def test_program_def Let_def)

section \<open>Rendering\<close>

lemma rendered_new: "rendered p 0 (Image_new (width p) (height p))"
  by (simp add: rendered_def Image_new_def)

lemma row_index_bound:
  fixes x y w h :: nat
  assumes "x < w" and "y < h"
  shows "y * w + x < w * h"
proof -
  have "y * w + x < y * w + w" using assms(1) by simp
  also have "\<dots> = Suc y * w" by simp
  also have "\<dots> \<le> h * w" using assms(2) by (intro mult_le_mono1) simp
  finally show ?thesis by (simp add: mult.commute)
qed

text \<open>One pass of the loop body writes the next pixel and raises nothing.\<close>

lemma render_pixel_rendered:
  assumes fit: "width p * height p \<le> length (framebuffer p)"
    and x: "x < width p" and y: "y < height p"
    and inv: "rendered p (y * width p + x) img"
  shows "\<exists>img'. render_pixel p y x img = Done img' \<and> rendered p (y * width p + Suc x) img'"
proof -
  let ?k = "y * width p + x"
  let ?fb = "framebuffer p"
  let ?n = "width p * height p"
  have k: "?k < ?n" using x y by (rule row_index_bound)
  then have kfb: "?k < length ?fb" using fit by simp
  have get: "getitem ?fb (int ?k) = Inr (?fb ! ?k)"
    using kfb by (rule getitem_nat)
  have w: "img_width img = width p" and h: "img_height img = height p"
    and d: "img_data img = map gray (take ?k ?fb) @ replicate (?n - ?k) (0, 0, 0)"
    using inv by (simp_all add: rendered_def)
  have len: "length (map gray (take ?k ?fb)) = ?k" using kfb by simp
  obtain m where m: "?n - ?k = Suc m"
    using k by (metis Suc_diff_Suc)
  have upd: "(img_data img)[?k := gray (?fb ! ?k)] =
        map gray (take (Suc ?k) ?fb) @ replicate (?n - Suc ?k) (0, 0, 0)"
  proof -
    have "(img_data img)[?k := gray (?fb ! ?k)] =
            map gray (take ?k ?fb) @ (replicate (Suc m) (0, 0, 0))[0 := gray (?fb ! ?k)]"
      using len by (simp add: d m list_update_append)
    also have "\<dots> = map gray (take ?k ?fb) @ gray (?fb ! ?k) # replicate m (0, 0, 0)"
      by simp
    also have "\<dots> = map gray (take (Suc ?k) ?fb) @ replicate m (0, 0, 0)"
      using kfb by (simp add: take_Suc_conv_app_nth)
    also have "m = ?n - Suc ?k" using m by simp
    finally show ?thesis .
  qed
  let ?img' = "img\<lparr>img_data := (img_data img)[?k := gray (?fb ! ?k)]\<rparr>"
  have "render_pixel p y x img = Done ?img'"
    using x y by (simp only: render_pixel_def get) (simp add: putpixel_def w h gray_def)
  moreover have "rendered p (y * width p + Suc x) ?img'"
    using upd by (simp add: rendered_def w h)
  ultimately show ?thesis by blast
qed

lemma render_row_rendered:
  assumes fit: "width p * height p \<le> length (framebuffer p)"
    and y: "y < height p"
    and inv: "rendered p (y * width p) img"
  shows "\<exists>img'. for_range (width p) (render_pixel p y) img = Done img' \<and>
                rendered p (Suc y * width p) img'"
proof -
  have "\<exists>t. for_range (width p) (render_pixel p y) img = Done t \<and>
            rendered p (y * width p + width p) t"
  proof (rule for_range_invariant [where I = "\<lambda>x. rendered p (y * width p + x)"])
    show "rendered p (y * width p + 0) img" using inv by simp
  next
    fix i t assume "i < width p" "rendered p (y * width p + i) t"
    then show "\<exists>t'. render_pixel p y i t = Done t' \<and> rendered p (y * width p + Suc i) t'"
      using render_pixel_rendered [OF fit _ y] by blast
  qed
  then show ?thesis by (simp add: add.commute)
qed

lemma render_loops_rendered:
  assumes fit: "width p * height p \<le> length (framebuffer p)"
  shows "\<exists>img. for_range (height p) (\<lambda>y. for_range (width p) (render_pixel p y))
                 (Image_new (width p) (height p)) = Done img \<and>
               rendered p (width p * height p) img"
proof -
  have "\<exists>t. for_range (height p) (\<lambda>y. for_range (width p) (render_pixel p y))
                 (Image_new (width p) (height p)) = Done t \<and>
            rendered p (height p * width p) t"
  proof (rule for_range_invariant [where I = "\<lambda>y. rendered p (y * width p)"])
    show "rendered p (0 * width p) (Image_new (width p) (height p))"
      by (simp add: rendered_new)
  next
    fix i t assume "i < height p" "rendered p (i * width p) t"
    then show "\<exists>t'. for_range (width p) (render_pixel p i) t = Done t' \<and>
                    rendered p (Suc i * width p) t'"
      using render_row_rendered [OF fit] by blast
  qed
  then show ?thesis by (simp add: mult.commute)
qed

text \<open>
  With a framebuffer that covers the display, \<^verbatim>\<open>render_frame\<close> returns; it changes
  \<^verbatim>\<open>ppu_image\<close> and the canvas and nothing else.
\<close>

lemma render_frame_result:
  assumes fit: "width p * height p \<le> length (framebuffer p)"
  shows "\<exists>img. render_frame p =
                 Done (p\<lparr>ppu_image := Some img, canvas := canvas p @ [(0, 0, img)]\<rparr>) \<and>
               rendered p (width p * height p) img"
proof -
  from render_loops_rendered [OF fit] obtain img where
    "for_range (height p) (\<lambda>y. for_range (width p) (render_pixel p y))
       (Image_new (width p) (height p)) = Done img"
    and r: "rendered p (width p * height p) img" by blast
  then have "render_frame p =
      Done (p\<lparr>ppu_image := Some img, canvas := canvas p @ [(0, 0, img)]\<rparr>)"
    by (simp add: render_frame_def)
  with r show ?thesis by blast
qed

lemma rendered_unique:
  assumes "rendered p k img" and "rendered q k img'"
    and "width q = width p" and "height q = height p" and "framebuffer q = framebuffer p"
  shows "img' = img"
  using assms by (simp add: rendered_def image.equality)

lemma rendered_pixel:
  assumes r: "rendered p (width p * height p) img"
    and fit: "width p * height p \<le> length (framebuffer p)"
    and i: "i < width p * height p"
  shows "getpixel img (i mod width p) (i div width p) =
           Inr (framebuffer p ! i, framebuffer p ! i, framebuffer p ! i)"
proof -
  have w: "0 < width p" using i by (cases "width p") simp_all
  have x: "i mod width p < width p" using w by simp
  have y: "i div width p < height p"
    using i by (simp add: less_mult_imp_div_less mult.commute)
  have d: "img_data img = map gray (take (width p * height p) (framebuffer p))"
    using r by (simp add: rendered_def)
  have "img_data img ! i = gray (framebuffer p ! i)"
    using i fit by (simp add: d)
  then show ?thesis using x y r by (simp add: getpixel_def rendered_def gray_def)
qed

text \<open>
  C8. For a display whose framebuffer covers \<^verbatim>\<open>width * height\<close> entries, each an
  intensity from 0 to 255: \<^verbatim>\<open>render_frame\<close> returns and leaves the framebuffer as it
  was; a second call without a framebuffer update in between returns as well and
  produces the same image; the image is \<^verbatim>\<open>width\<close> by \<^verbatim>\<open>height\<close> (256 by 224 for the
  constructed display) and its pixel at \<^verbatim>\<open>(i % width, i // width)\<close> is \<open>(v, v, v)\<close> for
  the intensity \<open>v\<close> stored at index \<open>i\<close>.
\<close>

theorem render_frame_pure_read:
  assumes fit: "width p * height p \<le> length (framebuffer p)"
    and range: "set (framebuffer p) \<subseteq> {0..255}"
  shows "\<exists>p1 p2 img.
           render_frame p = Done p1 \<and> render_frame p1 = Done p2 \<and>
           framebuffer p1 = framebuffer p \<and> framebuffer p2 = framebuffer p \<and>
           ppu_image p1 = Some img \<and> ppu_image p2 = Some img \<and>
           img_width img = width p \<and> img_height img = height p \<and>
           length (img_data img) = width p * height p \<and>
           (\<forall>i < width p * height p.
              getpixel img (i mod width p) (i div width p) =
                Inr (framebuffer p ! i, framebuffer p ! i, framebuffer p ! i))"
proof -
  from render_frame_result [OF fit] obtain img where
    r1: "render_frame p =
           Done (p\<lparr>ppu_image := Some img, canvas := canvas p @ [(0, 0, img)]\<rparr>)"
    and img: "rendered p (width p * height p) img" by blast
  let ?p1 = "p\<lparr>ppu_image := Some img, canvas := canvas p @ [(0, 0, img)]\<rparr>"
  have fit1: "width ?p1 * height ?p1 \<le> length (framebuffer ?p1)" using fit by simp
  from render_frame_result [OF fit1] obtain img' where
    r2: "render_frame ?p1 =
           Done (?p1\<lparr>ppu_image := Some img', canvas := canvas ?p1 @ [(0, 0, img')]\<rparr>)"
    and img': "rendered ?p1 (width ?p1 * height ?p1) img'" by blast
  have same: "img' = img"
    using img img' by (intro rendered_unique [of p _ img ?p1]) simp_all
  let ?p2 = "?p1\<lparr>ppu_image := Some img, canvas := canvas ?p1 @ [(0, 0, img)]\<rparr>"
  have size: "img_width img = width p" "img_height img = height p"
    "length (img_data img) = width p * height p"
    using img fit by (simp_all add: rendered_def)
  have px: "\<forall>i < width p * height p.
              getpixel img (i mod width p) (i div width p) =
                Inr (framebuffer p ! i, framebuffer p ! i, framebuffer p ! i)"
    using rendered_pixel [OF img fit] by blast
  have "render_frame p = Done ?p1 \<and> render_frame ?p1 = Done ?p2 \<and>
        framebuffer ?p1 = framebuffer p \<and> framebuffer ?p2 = framebuffer p \<and>
        ppu_image ?p1 = Some img \<and> ppu_image ?p2 = Some img"
    using r1 r2 same by simp
  with size px show ?thesis by blast
qed

text \<open>
  The theorem at the display a frame renders, whose intensities run through
  \<^verbatim>\<open>0, 1, ..., 255\<close> again and again: index 300 holds 44 and is the pixel at column 44
  of row 1, index 511 holds 255 at column 255 of row 1, and the last index, 57343, holds
  255 at column 255 of row 223.
\<close>

theorem render_frame_pure_read_witness:
  "width pattern_ppu * height pattern_ppu \<le> length (framebuffer pattern_ppu) \<and>
   set (framebuffer pattern_ppu) \<subseteq> {0..255} \<and>
   framebuffer pattern_ppu ! 300 = 44 \<and>
   (\<exists>p1 p2 img. render_frame pattern_ppu = Done p1 \<and> render_frame p1 = Done p2 \<and>
      framebuffer p1 = framebuffer pattern_ppu \<and> framebuffer p2 = framebuffer pattern_ppu \<and>
      ppu_image p1 = Some img \<and> ppu_image p2 = Some img \<and>
      img_width img = 256 \<and> img_height img = 224 \<and>
      length (img_data img) = 57344 \<and>
      getpixel img 44 1 = Inr (44, 44, 44) \<and>
      getpixel img 255 1 = Inr (255, 255, 255) \<and>
      getpixel img 0 2 = Inr (0, 0, 0) \<and>
      getpixel img 255 223 = Inr (255, 255, 255))"
proof -
  let ?p = "pattern_ppu"
  have w: "width ?p = 256" and h: "height ?p = 224"
    by (simp_all add: pattern_ppu_def SNESPPU_init_def)
  have fb: "i < 57344 \<Longrightarrow> framebuffer ?p ! i = int i mod 256" for i
    by (simp add: pattern_ppu_def)
  have h1: "width ?p * height ?p \<le> length (framebuffer ?p)"
    by (simp add: pattern_ppu_def SNESPPU_init_def)
  have h2: "set (framebuffer ?p) \<subseteq> {0..255}"
    by (auto simp add: pattern_ppu_def)
  have v: "framebuffer ?p ! 300 = 44" by (simp add: fb)
  from render_frame_pure_read [OF h1 h2] obtain p1 p2 img where
    r: "render_frame ?p = Done p1" "render_frame p1 = Done p2"
      "framebuffer p1 = framebuffer ?p" "framebuffer p2 = framebuffer ?p"
      "ppu_image p1 = Some img" "ppu_image p2 = Some img"
      "img_width img = width ?p" "img_height img = height ?p"
      "length (img_data img) = width ?p * height ?p"
    and px: "\<forall>i < width ?p * height ?p.
              getpixel img (i mod width ?p) (i div width ?p) =
                Inr (framebuffer ?p ! i, framebuffer ?p ! i, framebuffer ?p ! i)"
    by blast
  have at: "i < 57344 \<Longrightarrow>
      getpixel img (i mod 256) (i div 256) = Inr (int i mod 256, int i mod 256, int i mod 256)"
    for i
    using px by (simp add: w h fb)
  have "getpixel img 44 1 = Inr (44, 44, 44)" using at [of 300] by simp
  moreover have "getpixel img 255 1 = Inr (255, 255, 255)" using at [of 511] by simp
  moreover have "getpixel img 0 2 = Inr (0, 0, 0)" using at [of 512] by simp
  moreover have "getpixel img 255 223 = Inr (255, 255, 255)" using at [of 57343] by simp
  moreover have "img_width img = 256" "img_height img = 224" "length (img_data img) = 57344"
    using r by (simp_all add: w h)
  ultimately show ?thesis using r h1 h2 v by blast
qed

section \<open>One frame\<close>

text \<open>The loop of the frame is the sequence of its \<^verbatim>\<open>step()\<close> calls.\<close>

lemma for_range_cpu_step:
  "for_range n (\<lambda>_. cpu_step) e =
     (case run_steps n (cpu e) of
        Done c \<Rightarrow> Done (e\<lparr>cpu := c\<rparr>)
      | Raised err c \<Rightarrow> Raised err (e\<lparr>cpu := c\<rparr>))"
proof (induction n)
  case 0
  show ?case by (simp add: for_range_0)
next
  case (Suc n)
  show ?case
    by (simp only: for_range_Suc run_steps_snoc Suc.IH)
       (simp add: cpu_step_def split: outcome.splits)
qed

text \<open>
  When one of the hundred calls raises, the frame ends there with that exception: the
  framebuffer is not refreshed and nothing is rendered.
\<close>

lemma frame_truncated:
  assumes "run_steps 100 (cpu e) = Raised err c'"
  shows "emulate_single_frame e = Raised err (e\<lparr>cpu := c'\<rparr>)"
  by (simp add: emulate_single_frame_def for_range_cpu_step assms)

lemma frame_start_steps:
  "run_steps 100 (cpu frame_start) =
     Done (SimpleSNESCPU_init\<lparr>memory := (memory SimpleSNESCPU_init)[2 := 5],
                               pc := 0xE3, reg_a := 5\<rparr>)"
  by (simp add: frame_start_def CitraLikeEmulator_init_def run_steps_numeral cpu_eval)

text \<open>
  C7. One frame tick of a running emulator whose \<^verbatim>\<open>step()\<close> calls raise nothing: the
  processor is left as exactly 100 successive \<^verbatim>\<open>step()\<close> calls leave it; then the
  framebuffer is refilled with \<^verbatim>\<open>i % 256\<close> and \<^verbatim>\<open>render_frame\<close> runs on the refilled
  buffer and returns; then the next tick is registered after 16 milliseconds.
\<close>

theorem frame_runs_100_steps_then_renders:
  assumes run: "is_running e" and steps: "run_steps 100 (cpu e) = Done c'"
  shows "\<exists>p'. render_frame ((ppu e)\<lparr>framebuffer :=
                    map (\<lambda>i. int i mod 256) [0..<width (ppu e) * height (ppu e)]\<rparr>) = Done p' \<and>
              emulate e = Done (e\<lparr>cpu := c', ppu := p', after_calls := after_calls e @ [16]\<rparr>)"
proof -
  let ?p1 = "(ppu e)\<lparr>framebuffer :=
               map (\<lambda>i. int i mod 256) [0..<width (ppu e) * height (ppu e)]\<rparr>"
  have "width ?p1 * height ?p1 \<le> length (framebuffer ?p1)" by simp
  from render_frame_result [OF this] obtain p' where r: "render_frame ?p1 = Done p'"
    by blast
  have loop: "for_range 100 (\<lambda>_. cpu_step) e = Done (e\<lparr>cpu := c'\<rparr>)"
    by (simp add: for_range_cpu_step steps)
  have "emulate_single_frame e = Done (e\<lparr>cpu := c', ppu := p'\<rparr>)"
    by (simp add: emulate_single_frame_def loop r Let_def)
  then have "emulate e =
      Done (e\<lparr>cpu := c', ppu := p', after_calls := after_calls e @ [16]\<rparr>)"
    using run by (simp add: emulate_def)
  with r show ?thesis by blast
qed

theorem frame_runs_100_steps_then_renders_witness:
  "is_running frame_start \<and>
   run_steps 100 (cpu frame_start) =
     Done (SimpleSNESCPU_init\<lparr>memory := (memory SimpleSNESCPU_init)[2 := 5],
                               pc := 0xE3, reg_a := 5\<rparr>) \<and>
   (\<exists>p'. render_frame ((ppu frame_start)\<lparr>framebuffer :=
             map (\<lambda>i. int i mod 256)
               [0..<width (ppu frame_start) * height (ppu frame_start)]\<rparr>) = Done p' \<and>
         emulate frame_start =
           Done (frame_start\<lparr>cpu := SimpleSNESCPU_init\<lparr>memory := (memory SimpleSNESCPU_init)[2 := 5],
                                                         pc := 0xE3, reg_a := 5\<rparr>,
                              ppu := p', after_calls := after_calls frame_start @ [16]\<rparr>))"
proof -
  have h1: "is_running frame_start" by (simp add: frame_start_def)
  show ?thesis
    by (rule conjI [OF h1 conjI [OF frame_start_steps
          frame_runs_100_steps_then_renders [OF h1 frame_start_steps]]])
qed

end
